theory Spec2Isabelle
  imports Complex_Main
begin

section \<open>Data model\<close>

text \<open>
  The module \<^verbatim>\<open>grand/group_anomaly/group_anomaly.py\<close> holds the class
  \<^verbatim>\<open>GroupAnomaly\<close>. Its collaborators (\<^verbatim>\<open>PeerGrouping\<close>, \<^verbatim>\<open>Transformer\<close>,
  \<^verbatim>\<open>IndividualAnomalyInductive\<close> and the helpers of \<^verbatim>\<open>grand.utils\<close>) are imported
  by that module. The orchestration is embedded over an arbitrary implementation of them,
  passed as a record of operations.

  A timestamp is an integer number of ticks, a sample a vector of reals, and the history of
  one unit (a data frame indexed by time) the list of its rows in insertion order.
\<close>

type_synonym timestamp = int
type_synonym sample = "real list"
type_synonym df = "(timestamp \<times> sample) list"

text \<open>The exceptions that can leave a call: the two that \<^verbatim>\<open>predict\<close> catches, the
  scorer's, Python's own \<^verbatim>\<open>IndexError\<close>, and a dimension mismatch.\<close>

datatype error =
  TestUnitError | NoRefGroupError | InsufficientReferenceError | IndexError | DimensionError

record DeviationContext =
  strangeness :: real
  pvalue :: real
  deviation :: real
  is_deviating :: bool

text \<open>The operations of the collaborators. An operation of a stateful object returns the
  object as the call left it, also when the call raises.\<close>

record ('tr, 'det) components =
  transform :: "'tr \<Rightarrow> sample \<Rightarrow> (error + sample) \<times> 'tr"
  get_target_and_reference :: "int \<Rightarrow> timestamp \<Rightarrow> df list \<Rightarrow> error + (sample \<times> sample list)"
  fit :: "'det \<Rightarrow> sample list \<Rightarrow> error option \<times> 'det"
  detector_predict :: "'det \<Rightarrow> timestamp \<Rightarrow> sample \<Rightarrow> (error + DeviationContext) \<times> 'det"
  new_detector :: "'det"
  new_transformer :: "'tr"

text \<open>The fields of a \<^verbatim>\<open>GroupAnomaly\<close> object that \<^verbatim>\<open>predict\<close> reads or writes.\<close>

record ('tr, 'det) group_anomaly =
  nb_units :: int
  ids_target_units :: "int list"
  dev_threshold :: real
  dfs_original :: "df list"
  dfs :: "df list"
  detectors :: "'det list"
  transformers :: "'tr list"

section \<open>Helpers\<close>

text \<open>Modelled from the spec: \<^verbatim>\<open>append_to_df\<close> of \<^verbatim>\<open>grand.utils\<close> is imported by the
  module; a time series is an append-only sequence of (timestamp, sample) pairs, so the
  helper adds one row for \<^verbatim>\<open>dt\<close> at the end.\<close>

definition append_to_df :: "df \<Rightarrow> timestamp \<Rightarrow> sample \<Rightarrow> df" where
  "append_to_df d dt x = d @ [(dt, x)]"

text \<open>Python's \<^verbatim>\<open>xs[i]\<close>: a negative index counts from the end, an index out of range
  raises. The position read is returned with the element.\<close>

definition py_index :: "'a list \<Rightarrow> int \<Rightarrow> error + (nat \<times> 'a)" where
  "py_index xs i =
     (let n = int (length xs); j = (if i < 0 then n + i else i)
      in if 0 \<le> j \<and> j < n then Inr (nat j, xs ! nat j) else Inl IndexError)"

text \<open>\<^verbatim>\<open>[append_to_df(frames[i], dt, x) for i, x in enumerate(xs)]\<close>: the result has one
  frame per element of \<^verbatim>\<open>xs\<close>; reading \<^verbatim>\<open>frames[i]\<close> raises when \<^verbatim>\<open>xs\<close> is the
  longer list.\<close>

definition append_all :: "df list \<Rightarrow> timestamp \<Rightarrow> sample list \<Rightarrow> error + df list" where
  "append_all frames dt xs =
     (if length xs \<le> length frames
      then Inr (map (\<lambda>(i, x). append_to_df (frames ! i) dt x) (enumerate 0 xs))
      else Inl IndexError)"

text \<open>\<^verbatim>\<open>[transformer.transform(x) for x, transformer in zip(x_units, self.transformers)]\<close>:
  \<^verbatim>\<open>zip\<close> stops at the shorter list, the transformers are called from left to right, and a
  call that raises ends the comprehension.\<close>

fun transform_all ::
  "('tr, 'det) components \<Rightarrow> sample list \<Rightarrow> 'tr list \<Rightarrow> (error + sample list) \<times> 'tr list" where
  "transform_all C [] trs = (Inr [], trs)"
| "transform_all C (x # xs) [] = (Inr [], [])"
| "transform_all C (x # xs) (tr # trs) =
     (case transform C tr x of
        (Inl e, tr') \<Rightarrow> (Inl e, tr' # trs)
      | (Inr y, tr') \<Rightarrow>
          (case transform_all C xs trs of
             (Inl e, trs') \<Rightarrow> (Inl e, tr' # trs')
           | (Inr ys, trs') \<Rightarrow> (Inr (y # ys), tr' # trs')))"

section \<open>GroupAnomaly\<close>

text \<open>\<^verbatim>\<open>__init__\<close>: one empty history of each kind, one detector and one transformer per
  unit (\<^verbatim>\<open>range(nb_units)\<close> is empty for a negative count).\<close>

definition init ::
  "('tr, 'det) components \<Rightarrow> int \<Rightarrow> int list \<Rightarrow> real \<Rightarrow> ('tr, 'det) group_anomaly" where
  "init C nb ids thr =
     \<lparr> nb_units = nb, ids_target_units = ids, dev_threshold = thr,
       dfs_original = replicate (nat nb) [], dfs = replicate (nat nb) [],
       detectors = replicate (nat nb) (new_detector C),
       transformers = replicate (nat nb) (new_transformer C) \<rparr>"

text \<open>\<^verbatim>\<open>DeviationContext(0, 0.5, 0, False)\<close>, the value substituted in the handler.\<close>

definition neutral :: DeviationContext where
  "neutral = \<lparr> strangeness = 0, pvalue = 1 / 2, deviation = 0, is_deviating = False \<rparr>"

text \<open>The body of the \<^verbatim>\<open>try\<close>: grouping, then fit, then predict, on the detector of the
  unit. The first call that raises ends the block.\<close>

definition try_block ::
  "('tr, 'det) components \<Rightarrow> 'det \<Rightarrow> timestamp \<Rightarrow> int \<Rightarrow> df list \<Rightarrow> (error + DeviationContext) \<times> 'det" where
  "try_block C detector dt uid frames =
     (case get_target_and_reference C uid dt frames of
        Inl e \<Rightarrow> (Inl e, detector)
      | Inr (x, Xref) \<Rightarrow>
          (case fit C detector Xref of
             (Some e, d1) \<Rightarrow> (Inl e, d1)
           | (None, d1) \<Rightarrow> detector_predict C d1 dt x))"

text \<open>One iteration of \<^verbatim>\<open>for uid in self.ids_target_units\<close>: the detector is read outside
  the \<^verbatim>\<open>try\<close>; the handler catches \<^verbatim>\<open>TestUnitError\<close> and \<^verbatim>\<open>NoRefGroupError\<close> only.\<close>

definition predict_unit ::
  "('tr, 'det) components \<Rightarrow> ('tr, 'det) group_anomaly \<Rightarrow> timestamp \<Rightarrow> int \<Rightarrow>
     (error + DeviationContext) \<times> ('tr, 'det) group_anomaly" where
  "predict_unit C st dt uid =
     (case py_index (detectors st) uid of
        Inl e \<Rightarrow> (Inl e, st)
      | Inr (j, detector) \<Rightarrow>
          (case try_block C detector dt uid (dfs st) of
             (Inl e, d') \<Rightarrow>
               (if e = TestUnitError \<or> e = NoRefGroupError
                then (Inr neutral, st\<lparr>detectors := (detectors st)[j := d']\<rparr>)
                else (Inl e, st\<lparr>detectors := (detectors st)[j := d']\<rparr>))
           | (Inr devContext, d') \<Rightarrow>
               (Inr devContext, st\<lparr>detectors := (detectors st)[j := d']\<rparr>)))"

text \<open>The loop, with the list \<^verbatim>\<open>deviations\<close> it appends to.\<close>

fun predict_loop ::
  "('tr, 'det) components \<Rightarrow> ('tr, 'det) group_anomaly \<Rightarrow> timestamp \<Rightarrow> int list \<Rightarrow>
     DeviationContext list \<Rightarrow> (error + DeviationContext list) \<times> ('tr, 'det) group_anomaly" where
  "predict_loop C st dt [] deviations = (Inr deviations, st)"
| "predict_loop C st dt (uid # uids) deviations =
     (case predict_unit C st dt uid of
        (Inl e, st') \<Rightarrow> (Inl e, st')
      | (Inr devContext, st') \<Rightarrow> predict_loop C st' dt uids (deviations @ [devContext]))"

text \<open>The three assignments before the loop. Each one happens only if its right-hand side
  was evaluated without an exception; the transformers are changed in place.\<close>

definition ingest ::
  "('tr, 'det) components \<Rightarrow> ('tr, 'det) group_anomaly \<Rightarrow> timestamp \<Rightarrow> sample list \<Rightarrow>
     error option \<times> ('tr, 'det) group_anomaly" where
  "ingest C st dt x_units =
     (case append_all (dfs_original st) dt x_units of
        Inl e \<Rightarrow> (Some e, st)
      | Inr dfo \<Rightarrow>
          (case transform_all C x_units (transformers st) of
             (Inl e, trs) \<Rightarrow> (Some e, st\<lparr>dfs_original := dfo, transformers := trs\<rparr>)
           | (Inr x_units_tr, trs) \<Rightarrow>
               (case append_all (dfs st) dt x_units_tr of
                  Inl e \<Rightarrow> (Some e, st\<lparr>dfs_original := dfo, transformers := trs\<rparr>)
                | Inr d \<Rightarrow> (None, st\<lparr>dfs_original := dfo, transformers := trs, dfs := d\<rparr>))))"

definition predict ::
  "('tr, 'det) components \<Rightarrow> ('tr, 'det) group_anomaly \<Rightarrow> timestamp \<Rightarrow> sample list \<Rightarrow>
     (error + DeviationContext list) \<times> ('tr, 'det) group_anomaly" where
  "predict C st dt x_units =
     (case ingest C st dt x_units of
        (Some e, st1) \<Rightarrow> (Inl e, st1)
      | (None, st1) \<Rightarrow> predict_loop C st1 dt (ids_target_units st1) [])"

text \<open>The lists of an object built by \<^verbatim>\<open>__init__\<close> have one entry per unit.\<close>

definition well_formed :: "('tr, 'det) group_anomaly \<Rightarrow> bool" where
  "well_formed st =
     (length (dfs_original st) = nat (nb_units st) \<and> length (dfs st) = nat (nb_units st) \<and>
      length (detectors st) = nat (nb_units st) \<and> length (transformers st) = nat (nb_units st))"

section \<open>PeerGrouping\<close>

text \<open>Modelled from the spec: the class \<^verbatim>\<open>PeerGrouping\<close> (module \<^verbatim>\<open>peer_grouping\<close>) is
  imported by \<^verbatim>\<open>group_anomaly.py\<close>. The spec gives
  \<^verbatim>\<open>get_target_and_reference\<close> as: (a) locate the target unit's sample at timestamp
  \<^verbatim>\<open>dt\<close>, \<^verbatim>\<open>TestUnitError\<close> if absent; (b) the window \<^verbatim>\<open>[dt - w_ref_group, dt]\<close>, closed at
  both ends; (c) every sample of every other unit whose timestamp is in the window,
  flattened, \<^verbatim>\<open>NoRefGroupError\<close> if there is none. A unit that has no history at all (an id
  outside the list) has no sample at \<^verbatim>\<open>dt\<close>; of several rows at \<^verbatim>\<open>dt\<close> the latest is the
  target's sample.\<close>

definition samples_at :: "df \<Rightarrow> timestamp \<Rightarrow> sample list" where
  "samples_at d dt = map snd (filter (\<lambda>(t, x). t = dt) d)"

definition in_window :: "int \<Rightarrow> timestamp \<Rightarrow> timestamp \<Rightarrow> bool" where
  "in_window w dt t = (dt - w \<le> t \<and> t \<le> dt)"

definition window_samples :: "int \<Rightarrow> timestamp \<Rightarrow> df \<Rightarrow> sample list" where
  "window_samples w dt d = map snd (filter (\<lambda>(t, x). in_window w dt t) d)"

definition reference_group :: "int \<Rightarrow> int \<Rightarrow> timestamp \<Rightarrow> df list \<Rightarrow> sample list" where
  "reference_group w uid dt frames =
     concat (map (\<lambda>(j, d). window_samples w dt d)
       (filter (\<lambda>(j, d). int j \<noteq> uid) (enumerate 0 frames)))"

definition pg_get_target_and_reference ::
  "int \<Rightarrow> int \<Rightarrow> timestamp \<Rightarrow> df list \<Rightarrow> error + (sample \<times> sample list)" where
  "pg_get_target_and_reference w uid dt frames =
     (if 0 \<le> uid \<and> uid < int (length frames)
      then (case rev (samples_at (frames ! nat uid) dt) of
              [] \<Rightarrow> Inl TestUnitError
            | x # older \<Rightarrow>
                (let Xref = reference_group w uid dt frames
                 in if Xref = [] then Inl NoRefGroupError else Inr (x, Xref)))
      else Inl TestUnitError)"

section \<open>IndividualAnomalyInductive\<close>

text \<open>Modelled from the spec: the class \<^verbatim>\<open>IndividualAnomalyInductive\<close> is imported by
  \<^verbatim>\<open>group_anomaly.py\<close>. The state of a detector is the fitted model (the reference set) and
  the sequences T, S, P and M.\<close>

record detector =
  model :: "sample list"
  seq_T :: "timestamp list"
  seq_S :: "real list"
  seq_P :: "real list"
  seq_M :: "real list"

definition empty_detector :: detector where
  "empty_detector = \<lparr> model = [], seq_T = [], seq_S = [], seq_P = [], seq_M = [] \<rparr>"

text \<open>Modelled from the spec: what the spec leaves to the configuration or to the
  implementer is a field of the policy: the scoring function (median, knn or lof), the
  tie-break draw of each call (read by the number of the call), and the map from the window
  size and the p-values so far to the deviation level. The spec gives no formula for that
  map, so it stays a parameter in everything below.\<close>

record policy =
  score :: "sample list \<Rightarrow> sample \<Rightarrow> real"
  theta :: "nat \<Rightarrow> real"
  w_martingale :: nat
  martingale :: "nat \<Rightarrow> real list \<Rightarrow> real"

text \<open>Modelled from the spec: the conformal p-value of the new strangeness among the recorded
  ones, the new one included as in the standard construction: the fraction that is larger,
  plus the tie-break draw times the fraction that is equal.\<close>

definition conformal_pvalue :: "real \<Rightarrow> real list \<Rightarrow> real \<Rightarrow> real" where
  "conformal_pvalue u scores s =
     (real (length (filter (\<lambda>a. s < a) scores)) + u * real (length (filter (\<lambda>a. a = s) scores)))
       / real (length scores)"

text \<open>Modelled from the spec: \<^verbatim>\<open>fit\<close> replaces the model; the scorer fails with
  \<^verbatim>\<open>InsufficientReferenceError\<close> on an empty reference set.\<close>

definition iai_fit :: "detector \<Rightarrow> sample list \<Rightarrow> error option \<times> detector" where
  "iai_fit det Xref =
     (if Xref = [] then (Some InsufficientReferenceError, det) else (None, det\<lparr>model := Xref\<rparr>))"

text \<open>Modelled from the spec: \<^verbatim>\<open>predict\<close>, steps 1 to 5: strangeness, p-value, deviation,
  decision against the threshold, and one entry more in each sequence.\<close>

definition iai_predict ::
  "policy \<Rightarrow> real \<Rightarrow> detector \<Rightarrow> timestamp \<Rightarrow> sample \<Rightarrow> (error + DeviationContext) \<times> detector" where
  "iai_predict pol thr det dt x =
     (let s = score pol (model det) x;
          p = conformal_pvalue (theta pol (length (seq_S det))) (seq_S det @ [s]) s;
          m = martingale pol (w_martingale pol) (seq_P det @ [p])
      in (Inr \<lparr> strangeness = s, pvalue = p, deviation = m, is_deviating = (thr \<le> m) \<rparr>,
          det\<lparr> seq_T := seq_T det @ [dt], seq_S := seq_S det @ [s],
               seq_P := seq_P det @ [p], seq_M := seq_M det @ [m] \<rparr>))"

text \<open>Modelled from the spec: the median policy of the scorer: the Euclidean distance from the
  sample to the coordinate-wise median of the reference samples (samples of one
  dimension, as the data model requires). The median of an even number of values is the
  mean of the two middle ones.\<close>

definition median :: "real list \<Rightarrow> real" where
  "median xs =
     (let s = sort xs; n = length xs
      in if even n then (s ! (n div 2 - 1) + s ! (n div 2)) / 2 else s ! (n div 2))"

definition median_score :: "sample list \<Rightarrow> sample \<Rightarrow> real" where
  "median_score Xref x =
     sqrt (sum_list (map (\<lambda>j. (x ! j - median (map (\<lambda>r. r ! j) Xref))\<^sup>2) [0..<length x]))"

text \<open>The policy with the median scorer, tie-break draws of 1/2, a window \<open>w\<close> and a deviation
  map \<open>m\<close>.\<close>

definition median_policy :: "nat \<Rightarrow> (nat \<Rightarrow> real list \<Rightarrow> real) \<Rightarrow> policy" where
  "median_policy w m =
     \<lparr> score = median_score, theta = (\<lambda>n. 1 / 2), w_martingale = w, martingale = m \<rparr>"

text \<open>Modelled from the spec: the collaborators as a record of operations, with the identity
  transformer (\<^verbatim>\<open>transformer = None\<close>).\<close>

definition spec_components :: "int \<Rightarrow> policy \<Rightarrow> real \<Rightarrow> (unit, detector) components" where
  "spec_components w pol thr =
     \<lparr> transform = (\<lambda>tr x. (Inr x, tr)),
       get_target_and_reference = pg_get_target_and_reference w,
       fit = iai_fit,
       detector_predict = iai_predict pol thr,
       new_detector = empty_detector,
       new_transformer = () \<rparr>"

section \<open>Configurations\<close>

text \<open>Modelled from the spec: the configuration of the example script (median strangeness,
  a window of 15 p-values, threshold 0.6, no transformer), with a reference window of 7
  ticks, over any deviation map \<open>m\<close>.\<close>

definition example_components :: "(nat \<Rightarrow> real list \<Rightarrow> real) \<Rightarrow> (unit, detector) components" where
  "example_components m = spec_components 7 (median_policy 15 m) (3 / 5)"

text \<open>Modelled from the spec: the knn scorer under the policy that fails: \<^verbatim>\<open>fit\<close> raises
  \<^verbatim>\<open>InsufficientReferenceError\<close> when \<^verbatim>\<open>k\<close> is 0 or larger than the reference set. The
  configuration is the example's with \<^verbatim>\<open>k = 20\<close>, the default of \<^verbatim>\<open>GroupAnomaly\<close>.\<close>

definition knn_fit :: "nat \<Rightarrow> detector \<Rightarrow> sample list \<Rightarrow> error option \<times> detector" where
  "knn_fit k det Xref =
     (if k = 0 \<or> length Xref < k then (Some InsufficientReferenceError, det)
      else (None, det\<lparr>model := Xref\<rparr>))"

definition knn_components :: "(nat \<Rightarrow> real list \<Rightarrow> real) \<Rightarrow> (unit, detector) components" where
  "knn_components m = (example_components m)\<lparr>fit := knn_fit 20\<rparr>"

text \<open>The object as the example script's loop leaves it.\<close>

fun run_state ::
  "('tr, 'det) components \<Rightarrow> ('tr, 'det) group_anomaly \<Rightarrow> (timestamp \<times> sample list) list \<Rightarrow>
     ('tr, 'det) group_anomaly" where
  "run_state C st [] = st"
| "run_state C st ((dt, x_units) # rest) =
     (case predict C st dt x_units of
        (Inl e, st') \<Rightarrow> st'
      | (Inr devs, st') \<Rightarrow> run_state C st' rest)"

section \<open>Evaluation and frame lemmas\<close>

lemma sqrt_squares: "sqrt 4 = 2" "sqrt 16 = 4" "sqrt 25 = 5"
  using real_sqrt_abs [of 2] real_sqrt_abs [of 4] real_sqrt_abs [of 5] by simp_all

lemmas ev = example_components_def spec_components_def median_policy_def init_def predict_def ingest_def
  append_all_def append_to_df_def predict_unit_def try_block_def py_index_def
  pg_get_target_and_reference_def samples_at_def reference_group_def window_samples_def in_window_def
  iai_fit_def iai_predict_def conformal_pvalue_def median_score_def median_def
  empty_detector_def Let_def enumerate_eq_zip

lemma predict_unit_frame:
  "predict_unit C st dt uid = (r, st') \<Longrightarrow>
     dfs st' = dfs st \<and> dfs_original st' = dfs_original st \<and> transformers st' = transformers st \<and>
     ids_target_units st' = ids_target_units st \<and> nb_units st' = nb_units st \<and>
     dev_threshold st' = dev_threshold st \<and> length (detectors st') = length (detectors st)"
  by (auto simp: predict_unit_def split: sum.splits prod.splits if_splits)

lemma predict_loop_frame:
  "predict_loop C st dt uids acc = (r, st') \<Longrightarrow>
     dfs st' = dfs st \<and> dfs_original st' = dfs_original st \<and> transformers st' = transformers st \<and>
     ids_target_units st' = ids_target_units st \<and> nb_units st' = nb_units st \<and>
     dev_threshold st' = dev_threshold st \<and> length (detectors st') = length (detectors st)"
proof (induction uids arbitrary: st acc)
  case Nil
  then show ?case by simp
next
  case (Cons uid uids)
  obtain r1 s1 where u: "predict_unit C st dt uid = (r1, s1)" by (cases "predict_unit C st dt uid")
  note f = predict_unit_frame [OF u]
  show ?case
  proof (cases r1)
    case (Inl e)
    with Cons.prems u f show ?thesis by simp
  next
    case (Inr c)
    with Cons.prems u have "predict_loop C s1 dt uids (acc @ [c]) = (r, st')" by simp
    from Cons.IH [OF this] f show ?thesis by simp
  qed
qed

lemma predict_loop_acc:
  "predict_loop C st dt uids acc =
     (case predict_loop C st dt uids [] of
        (Inl e, s) \<Rightarrow> (Inl e, s)
      | (Inr ds, s) \<Rightarrow> (Inr (acc @ ds), s))"
proof (induction uids arbitrary: st acc)
  case Nil
  then show ?case by simp
next
  case (Cons uid uids)
  obtain r1 s1 where u: "predict_unit C st dt uid = (r1, s1)" by (cases "predict_unit C st dt uid")
  show ?case
  proof (cases r1)
    case (Inl e)
    with u show ?thesis by simp
  next
    case (Inr c)
    have a: "predict_loop C s1 dt uids (acc @ [c]) =
        (case predict_loop C s1 dt uids [] of (Inl e, s) \<Rightarrow> (Inl e, s) | (Inr ds, s) \<Rightarrow> (Inr ((acc @ [c]) @ ds), s))"
      by (rule Cons.IH)
    have b: "predict_loop C s1 dt uids [c] =
        (case predict_loop C s1 dt uids [] of (Inl e, s) \<Rightarrow> (Inl e, s) | (Inr ds, s) \<Rightarrow> (Inr ([c] @ ds), s))"
      by (rule Cons.IH)
    from u Inr a b show ?thesis by (simp split: prod.splits sum.splits)
  qed
qed

lemma predict_loop_append:
  "predict_loop C st dt (us @ vs) acc =
     (case predict_loop C st dt us acc of
        (Inl e, s) \<Rightarrow> (Inl e, s)
      | (Inr ds, s) \<Rightarrow> predict_loop C s dt vs ds)"
  by (induction us arbitrary: st acc) (auto split: prod.splits sum.splits)

lemma predict_loop_length:
  "predict_loop C st dt uids acc = (Inr ds, s) \<Longrightarrow> length ds = length acc + length uids"
  by (induction uids arbitrary: st acc) (auto split: prod.splits sum.splits)

lemma predict_loop_nth:
  assumes L: "predict_loop C st dt uids [] = (Inr devs, st')" and k: "k < length uids"
  shows "\<exists>sk sk'. predict_loop C st dt (take k uids) [] = (Inr (take k devs), sk) \<and>
                  predict_unit C sk dt (uids ! k) = (Inr (devs ! k), sk')"
proof -
  have split: "uids = take k uids @ (uids ! k # drop (Suc k) uids)"
    using k by (simp add: id_take_nth_drop [symmetric])
  obtain r1 sk where p: "predict_loop C st dt (take k uids) [] = (r1, sk)"
    by (cases "predict_loop C st dt (take k uids) []")
  have all: "predict_loop C st dt (take k uids @ (uids ! k # drop (Suc k) uids)) [] = (Inr devs, st')"
    using L split by simp
  from all p obtain ds1 where r1: "r1 = Inr ds1"
    by (cases r1) (simp_all add: predict_loop_append)
  from all p r1 have rest: "predict_loop C sk dt (uids ! k # drop (Suc k) uids) ds1 = (Inr devs, st')"
    by (simp add: predict_loop_append)
  obtain r2 sk' where u: "predict_unit C sk dt (uids ! k) = (r2, sk')"
    by (cases "predict_unit C sk dt (uids ! k)")
  from rest u obtain c where r2: "r2 = Inr c" by (cases r2) simp_all
  from rest u r2 have tl: "predict_loop C sk' dt (drop (Suc k) uids) (ds1 @ [c]) = (Inr devs, st')"
    by simp
  obtain r3 s3 where t0: "predict_loop C sk' dt (drop (Suc k) uids) [] = (r3, s3)"
    by (cases "predict_loop C sk' dt (drop (Suc k) uids) []")
  have "\<exists>ds2. devs = (ds1 @ [c]) @ ds2"
    using tl t0 predict_loop_acc [of C sk' dt "drop (Suc k) uids" "ds1 @ [c]"]
    by (cases r3) auto
  then obtain ds2 where devs: "devs = (ds1 @ [c]) @ ds2" by blast
  have len: "length ds1 = k"
    using predict_loop_length [of C st dt "take k uids" "[]" ds1 sk] p r1 k by simp
  from devs len have "take k devs = ds1" and "devs ! k = c"
    by (simp_all add: nth_append)
  with p r1 u r2 show ?thesis by simp
qed




lemma ingest_frame:
  "ingest C st dt x_units = (r, st1) \<Longrightarrow>
     ids_target_units st1 = ids_target_units st \<and> nb_units st1 = nb_units st \<and>
     dev_threshold st1 = dev_threshold st \<and> detectors st1 = detectors st"
  by (auto simp: ingest_def split: sum.splits prod.splits)

lemma predict_Inr:
  "predict C st dt x_units = (Inr devs, st') \<Longrightarrow>
     \<exists>st1. ingest C st dt x_units = (None, st1) \<and>
           predict_loop C st1 dt (ids_target_units st) [] = (Inr devs, st')"
  by (auto simp: predict_def dest: ingest_frame split: prod.splits option.splits)

lemma append_all_ok:
  assumes "length xs = length frames"
  shows "\<exists>r. append_all frames dt xs = Inr r \<and> length r = length xs \<and>
             (\<forall>i<length xs. r ! i = frames ! i @ [(dt, xs ! i)])"
  using assms by (simp add: append_all_def append_to_df_def nth_enumerate_eq)

lemma transform_all_ok:
  assumes "length xs = length trs"
      and "\<forall>i<length xs. \<exists>y t'. transform C (trs ! i) (xs ! i) = (Inr y, t')"
  shows "\<exists>ys trs'. transform_all C xs trs = (Inr ys, trs') \<and> length ys = length xs \<and>
            length trs' = length trs \<and>
            (\<forall>i<length xs. fst (transform C (trs ! i) (xs ! i)) = Inr (ys ! i))"
  using assms
proof (induction xs trs rule: list_induct2)
  case Nil
  then show ?case by simp
next
  case (Cons x xs tr trs)
  from Cons.prems obtain y t' where h: "transform C tr x = (Inr y, t')" by fastforce
  have "\<forall>i<length xs. \<exists>y t'. transform C (trs ! i) (xs ! i) = (Inr y, t')"
    using Cons.prems by fastforce
  from Cons.IH [OF this] obtain ys trs' where
    t: "transform_all C xs trs = (Inr ys, trs')" and l: "length ys = length xs"
    and l': "length trs' = length trs"
    and n: "\<forall>i<length xs. fst (transform C (trs ! i) (xs ! i)) = Inr (ys ! i)" by blast
  have "\<forall>i<length (x # xs). fst (transform C ((tr # trs) ! i) ((x # xs) ! i)) = Inr ((y # ys) ! i)"
    using h n by (auto simp: nth_Cons split: nat.splits)
  with h t l l' show ?case by simp
qed

lemma ingest_ok:
  assumes w: "well_formed st" and len: "int (length x_units) = nb_units st"
      and T: "\<forall>i<length x_units. \<exists>y t'. transform C (transformers st ! i) (x_units ! i) = (Inr y, t')"
  shows "\<exists>st1. ingest C st dt x_units = (None, st1) \<and> well_formed st1 \<and>
           (\<forall>i<length x_units.
              dfs_original st1 ! i = dfs_original st ! i @ [(dt, x_units ! i)] \<and>
              (\<exists>y. fst (transform C (transformers st ! i) (x_units ! i)) = Inr y \<and>
                   dfs st1 ! i = dfs st ! i @ [(dt, y)]))"
proof -
  have n: "length x_units = nat (nb_units st)" using len by simp
  with w have l1: "length x_units = length (dfs_original st)" and l2: "length x_units = length (dfs st)"
    and l3: "length x_units = length (transformers st)" by (simp_all add: well_formed_def)
  from append_all_ok [OF l1, of dt] obtain dfo where
    a1: "append_all (dfs_original st) dt x_units = Inr dfo" and a1l: "length dfo = length x_units"
    and a1n: "\<forall>i<length x_units. dfo ! i = dfs_original st ! i @ [(dt, x_units ! i)]" by blast
  from transform_all_ok [OF l3 T] obtain ys trs where
    t: "transform_all C x_units (transformers st) = (Inr ys, trs)" and tl: "length ys = length x_units"
    and tl': "length trs = length (transformers st)"
    and tn: "\<forall>i<length x_units. fst (transform C (transformers st ! i) (x_units ! i)) = Inr (ys ! i)"
    by blast
  have "length ys = length (dfs st)" using tl l2 by simp
  from append_all_ok [OF this, of dt] obtain d where
    a2: "append_all (dfs st) dt ys = Inr d" and a2l: "length d = length ys"
    and a2n: "\<forall>i<length ys. d ! i = dfs st ! i @ [(dt, ys ! i)]" by blast
  let ?st1 = "st\<lparr>dfs_original := dfo, transformers := trs, dfs := d\<rparr>"
  have i: "ingest C st dt x_units = (None, ?st1)"
    using a1 t a2 by (simp add: ingest_def)
  have w1: "well_formed ?st1" using w a1l a2l tl tl' n by (simp add: well_formed_def)
  have "\<forall>i<length x_units.
          dfs_original ?st1 ! i = dfs_original st ! i @ [(dt, x_units ! i)] \<and>
          (\<exists>y. fst (transform C (transformers st ! i) (x_units ! i)) = Inr y \<and>
               dfs ?st1 ! i = dfs st ! i @ [(dt, y)])"
    using a1n a2n tn tl by simp
  with i w1 show ?thesis by blast
qed

lemma predict_after_ingest:
  assumes "ingest C st dt x_units = (None, st1)" and "predict C st dt x_units = (r, st')"
  shows "dfs st' = dfs st1 \<and> dfs_original st' = dfs_original st1 \<and>
         transformers st' = transformers st1 \<and> nb_units st' = nb_units st1 \<and>
         length (detectors st') = length (detectors st1)"
proof -
  from assms have "predict_loop C st1 dt (ids_target_units st1) [] = (r, st')"
    by (simp add: predict_def)
  from predict_loop_frame [OF this] show ?thesis by simp
qed

lemma well_formed_init: "well_formed (init C nb ids thr)"
  by (simp add: well_formed_def init_def)

lemma predict_unit_other_detector:
  assumes "predict_unit C st dt uid = (r, st')" and "0 \<le> uid" and "int j \<noteq> uid"
  shows "detectors st' ! j = detectors st ! j"
  using assms
  by (auto simp: predict_unit_def py_index_def Let_def split: sum.splits prod.splits if_splits)

lemma predict_loop_other_detector:
  assumes "predict_loop C st dt uids acc = (r, st')"
      and "\<forall>u\<in>set uids. 0 \<le> u" and "int j \<notin> set uids"
  shows "detectors st' ! j = detectors st ! j"
  using assms
proof (induction uids arbitrary: st acc)
  case Nil
  then show ?case by simp
next
  case (Cons uid uids)
  obtain r1 s1 where u: "predict_unit C st dt uid = (r1, s1)" by (cases "predict_unit C st dt uid")
  have d: "detectors s1 ! j = detectors st ! j"
    using predict_unit_other_detector [OF u] Cons.prems by simp
  show ?case
  proof (cases r1)
    case (Inl e)
    with Cons.prems u d show ?thesis by simp
  next
    case (Inr c)
    with Cons.prems u have "predict_loop C s1 dt uids (acc @ [c]) = (r, st')" by simp
    from Cons.IH [OF this] Cons.prems d show ?thesis by simp
  qed
qed

lemma predict_other_detector:
  assumes P: "predict C st dt x_units = (r, st')"
      and ids: "\<forall>u\<in>set (ids_target_units st). 0 \<le> u" and j: "int j \<notin> set (ids_target_units st)"
  shows "detectors st' ! j = detectors st ! j"
proof -
  obtain e st1 where i: "ingest C st dt x_units = (e, st1)" by (cases "ingest C st dt x_units")
  note f = ingest_frame [OF i]
  show ?thesis
  proof (cases e)
    case (Some a)
    with P i f show ?thesis by (simp add: predict_def)
  next
    case None
    with P i f have "predict_loop C st1 dt (ids_target_units st) [] = (r, st')"
      by (simp add: predict_def)
    from predict_loop_other_detector [OF this ids j] f show ?thesis by simp
  qed
qed

lemma run_state_other_detector:
  assumes "\<forall>u\<in>set (ids_target_units st). 0 \<le> u" and "int j \<notin> set (ids_target_units st)"
  shows "detectors (run_state C st ins) ! j = detectors st ! j"
  using assms
proof (induction ins arbitrary: st)
  case Nil
  then show ?case by simp
next
  case (Cons a ins)
  obtain dt xs where a: "a = (dt, xs)" by (cases a)
  obtain r s where p: "predict C st dt xs = (r, s)" by (cases "predict C st dt xs")
  have d: "detectors s ! j = detectors st ! j"
    using predict_other_detector [OF p] Cons.prems by simp
  have ids: "ids_target_units s = ids_target_units st"
  proof -
    obtain e st1 where i: "ingest C st dt xs = (e, st1)" by (cases "ingest C st dt xs")
    show ?thesis
    proof (cases e)
      case (Some b)
      with p i ingest_frame [OF i] show ?thesis by (simp add: predict_def)
    next
      case None
      with p i have "predict_loop C st1 dt (ids_target_units st1) [] = (r, s)"
        by (simp add: predict_def)
      from predict_loop_frame [OF this] ingest_frame [OF i] show ?thesis by simp
    qed
  qed
  show ?case
  proof (cases r)
    case (Inl e)
    with a p d show ?thesis by simp
  next
    case (Inr devs)
    with a p d ids Cons.IH [of s] Cons.prems show ?thesis by simp
  qed
qed

section \<open>PeerGrouping lemmas\<close>




section \<open>Detector lemmas\<close>

lemma filter_lt_eq_length:
  "length (filter (\<lambda>a. s < a) xs) + length (filter (\<lambda>a. a = s) xs) \<le> length (xs :: real list)"
  by (induction xs) auto

lemma conformal_pvalue_range:
  assumes u: "0 \<le> u" "u \<le> 1" and ne: "scores \<noteq> []"
  shows "0 \<le> conformal_pvalue u scores s \<and> conformal_pvalue u scores s \<le> 1"
proof -
  let ?g = "real (length (filter (\<lambda>a. s < a) scores))"
  let ?e = "real (length (filter (\<lambda>a. a = s) scores))"
  let ?n = "real (length scores)"
  have n: "0 < ?n" using ne by simp
  have "?g + ?e \<le> ?n" using filter_lt_eq_length [of s scores] by linarith
  moreover have "u * ?e \<le> ?e" using u by (simp add: mult_left_le_one_le)
  moreover have "0 \<le> u * ?e" using u by simp
  ultimately have b: "0 \<le> ?g + u * ?e" "?g + u * ?e \<le> ?n" by linarith+
  from b n show ?thesis by (simp add: conformal_pvalue_def)
qed

lemma neutral_in_unit_interval:
  "0 \<le> pvalue neutral \<and> pvalue neutral \<le> 1 \<and> 0 \<le> deviation neutral \<and> deviation neutral \<le> 1"
  by (simp add: neutral_def)

lemma predict_unit_decision:
  assumes t: "0 < thr"
      and u: "predict_unit (spec_components w pol thr) st dt uid = (Inr c, st')"
  shows "is_deviating c = (thr \<le> deviation c)"
  using assms
  by (auto simp: predict_unit_def try_block_def spec_components_def iai_predict_def Let_def neutral_def
           split: sum.splits prod.splits if_splits option.splits)

section \<open>The claims\<close>



text \<open>C3, as the claim states it: with \<^verbatim>\<open>dev_threshold = 0\<close> and a unit without peers, the
  context returned is the neutral default, whose deviation 0 reaches the threshold while
  its \<^verbatim>\<open>is_deviating\<close> is false. The detector is not reached in this call; the constant
  map stands for its deviation map.\<close>

theorem neutral_default_at_threshold_zero:
  "fst (predict (spec_components 7 (median_policy 15 (\<lambda>w ps. 0)) 0)
          (init (spec_components 7 (median_policy 15 (\<lambda>w ps. 0)) 0) 1 [0] 0) 5 [[1]])
     = Inr [neutral] \<and>
   dev_threshold (init (spec_components 7 (median_policy 15 (\<lambda>w ps. 0)) 0) 1 [0] 0)
     \<le> deviation neutral \<and>
   \<not> is_deviating neutral"
  by (simp add: ev neutral_def)

text \<open>C3, amended. With the detector of the spec and a threshold above 0, every context a call
  of \<^verbatim>\<open>predict\<close> returns has \<^verbatim>\<open>is_deviating\<close> true exactly when its deviation is at
  least the threshold.\<close>

theorem is_deviating_iff_threshold:
  assumes t: "0 < dev_threshold st"
      and P: "predict (spec_components w pol (dev_threshold st)) st dt x_units = (Inr devs, st')"
  shows "\<forall>c\<in>set devs. is_deviating c = (dev_threshold st \<le> deviation c)"
proof
  fix c assume "c \<in> set devs"
  then obtain k where k: "k < length devs" and c: "c = devs ! k" by (metis in_set_conv_nth)
  let ?C = "spec_components w pol (dev_threshold st)"
  from predict_Inr [OF P] obtain st1 where
    L: "predict_loop ?C st1 dt (ids_target_units st) [] = (Inr devs, st')" by blast
  have "length devs = length (ids_target_units st)" using predict_loop_length [OF L] by simp
  with k have "k < length (ids_target_units st)" by simp
  from predict_loop_nth [OF L this] obtain sk sk' where
    "predict_unit ?C sk dt (ids_target_units st ! k) = (Inr (devs ! k), sk')" by blast
  from predict_unit_decision [OF t this] c show "is_deviating c = (dev_threshold st \<le> deviation c)"
    by simp
qed

theorem is_deviating_iff_threshold_witness:
  "\<forall>m. 0 < dev_threshold (init (example_components m) 2 [0] (3 / 5)) \<and>
       fst (predict (example_components m) (init (example_components m) 2 [0] (3 / 5)) 5 [[1], [3]])
         = Inr [\<lparr> strangeness = 2, pvalue = 1 / 2, deviation = m 15 [1 / 2],
                  is_deviating = (3 / 5 \<le> m 15 [1 / 2]) \<rparr>] \<and>
       is_deviating \<lparr> strangeness = 2, pvalue = 1 / 2, deviation = m 15 [1 / 2],
                      is_deviating = (3 / 5 \<le> m 15 [1 / 2]) \<rparr>
         = (dev_threshold (init (example_components m) 2 [0] (3 / 5))
              \<le> deviation \<lparr> strangeness = 2, pvalue = 1 / 2, deviation = m 15 [1 / 2],
                              is_deviating = (3 / 5 \<le> m 15 [1 / 2]) \<rparr>)"
proof
  fix m
  let ?E = "example_components m"
  let ?st = "init ?E 2 [0] (3 / 5)"
  let ?C = "spec_components 7 (median_policy 15 m) (dev_threshold ?st)"
  let ?c = "\<lparr> strangeness = 2, pvalue = 1 / 2, deviation = m 15 [1 / 2],
              is_deviating = (3 / 5 \<le> m 15 [1 / 2]) \<rparr>"
  have C: "?C = ?E" by (simp add: example_components_def init_def)
  have t: "0 < dev_threshold ?st" by (simp add: init_def)
  have f: "fst (predict ?E ?st 5 [[1], [3]]) = Inr [?c]"
    by (simp add: ev numeral_2_eq_2 sqrt_squares)
  then have p: "predict ?C ?st 5 [[1], [3]] = (Inr [?c], snd (predict ?C ?st 5 [[1], [3]]))"
    unfolding C by (metis prod.collapse)
  from is_deviating_iff_threshold [OF t p]
  have "is_deviating ?c = (dev_threshold ?st \<le> deviation ?c)" by simp
  with t f show "0 < dev_threshold ?st \<and> fst (predict ?E ?st 5 [[1], [3]]) = Inr [?c] \<and>
      is_deviating ?c = (dev_threshold ?st \<le> deviation ?c)"
    by simp
qed

text \<open>C4. A call of \<^verbatim>\<open>predict\<close> that returns gives one context per entry of
  \<^verbatim>\<open>ids_target_units\<close>, and the context at position \<open>k\<close> is the one produced for the
  \<open>k\<close>-th id, on the object as the first \<open>k\<close> ids, processed in list order, left it.\<close>

theorem predict_one_context_per_target:
  assumes P: "predict C st dt x_units = (Inr devs, st')"
  shows "length devs = length (ids_target_units st) \<and>
         (\<forall>k < length (ids_target_units st). \<exists>sk sk'.
            predict_loop C (snd (ingest C st dt x_units)) dt (take k (ids_target_units st)) []
              = (Inr (take k devs), sk) \<and>
            predict_unit C sk dt (ids_target_units st ! k) = (Inr (devs ! k), sk'))"
proof -
  from predict_Inr [OF P] obtain st1 where i: "ingest C st dt x_units = (None, st1)"
    and L: "predict_loop C st1 dt (ids_target_units st) [] = (Inr devs, st')" by blast
  have "length devs = length (ids_target_units st)"
    using predict_loop_length [OF L] by simp
  moreover have "\<exists>sk sk'.
      predict_loop C (snd (ingest C st dt x_units)) dt (take k (ids_target_units st)) []
        = (Inr (take k devs), sk) \<and>
      predict_unit C sk dt (ids_target_units st ! k) = (Inr (devs ! k), sk')"
    if "k < length (ids_target_units st)" for k
    using predict_loop_nth [OF L that] i by simp
  ultimately show ?thesis by blast
qed

theorem predict_one_context_per_target_witness:
  "\<forall>m. predict (example_components m) (init (example_components m) 3 [2, 0] (3 / 5)) 5 [[1], [3], [7]]
         = (Inr [\<lparr> strangeness = 5, pvalue = 1 / 2, deviation = m 15 [1 / 2],
                   is_deviating = (3 / 5 \<le> m 15 [1 / 2]) \<rparr>,
                 \<lparr> strangeness = 4, pvalue = 1 / 2, deviation = m 15 [1 / 2],
                   is_deviating = (3 / 5 \<le> m 15 [1 / 2]) \<rparr>],
            snd (predict (example_components m) (init (example_components m) 3 [2, 0] (3 / 5)) 5
                   [[1], [3], [7]])) \<and>
       length [\<lparr> strangeness = 5, pvalue = 1 / 2, deviation = m 15 [1 / 2],
                 is_deviating = (3 / 5 \<le> m 15 [1 / 2]) \<rparr>,
               \<lparr> strangeness = 4, pvalue = 1 / 2, deviation = m 15 [1 / 2],
                 is_deviating = (3 / 5 \<le> m 15 [1 / 2]) \<rparr>]
         = length (ids_target_units (init (example_components m) 3 [2, 0] (3 / 5)))"
proof
  fix m
  let ?C = "example_components m"
  let ?st = "init ?C 3 [2, 0] (3 / 5)"
  let ?devs = "[\<lparr> strangeness = 5, pvalue = 1 / 2, deviation = m 15 [1 / 2],
                  is_deviating = (3 / 5 \<le> m 15 [1 / 2]) \<rparr>,
                \<lparr> strangeness = 4, pvalue = 1 / 2, deviation = m 15 [1 / 2],
                  is_deviating = (3 / 5 \<le> m 15 [1 / 2]) \<rparr>]"
  have f: "fst (predict ?C ?st 5 [[1], [3], [7]]) = Inr ?devs"
    by (simp add: ev numeral_3_eq_3 sqrt_squares)
  then have p: "predict ?C ?st 5 [[1], [3], [7]] = (Inr ?devs, snd (predict ?C ?st 5 [[1], [3], [7]]))"
    by (metis prod.collapse)
  from predict_one_context_per_target [OF p] p
  show "predict ?C ?st 5 [[1], [3], [7]] = (Inr ?devs, snd (predict ?C ?st 5 [[1], [3], [7]])) \<and>
        length ?devs = length (ids_target_units ?st)"
    by blast
qed

text \<open>C5, as the claim states it: with k = 20 and one peer sample, the scorer raises
  \<^verbatim>\<open>InsufficientReferenceError\<close> in \<^verbatim>\<open>fit\<close>, and the error leaves \<^verbatim>\<open>predict\<close>. The
  deviation map is not reached in this call; the constant map stands for it.\<close>

theorem insufficient_reference_counterexample:
  "fst (predict (knn_components (\<lambda>w ps. 0)) (init (knn_components (\<lambda>w ps. 0)) 2 [0] (3 / 5)) 5
          [[1], [3]])
     = Inl InsufficientReferenceError"
  by (simp add: ev knn_components_def knn_fit_def numeral_2_eq_2)

lemma predict_unit_raises:
  assumes "py_index (detectors s) uid = Inr (j, d)"
      and "try_block C d dt uid (dfs s) = (Inl e, d')"
      and "e \<noteq> TestUnitError" and "e \<noteq> NoRefGroupError"
  shows "predict_unit C s dt uid = (Inl e, s\<lparr>detectors := (detectors s)[j := d']\<rparr>)"
  using assms by (simp add: predict_unit_def)

text \<open>C5, amended. When the \<^verbatim>\<open>try\<close> block of a target unit raises an error other than
  \<^verbatim>\<open>TestUnitError\<close> and \<^verbatim>\<open>NoRefGroupError\<close> (the scorer's
  \<^verbatim>\<open>InsufficientReferenceError\<close> is one), the units before it having been processed,
  \<^verbatim>\<open>predict\<close> raises that error.\<close>

theorem predict_propagates_uncaught:
  assumes I: "ingest C st dt x_units = (None, st1)"
      and ids: "ids_target_units st = pre @ uid # post"
      and pre: "predict_loop C st1 dt pre [] = (Inr ds, s)"
      and d: "py_index (detectors s) uid = Inr (j, d)"
      and t: "try_block C d dt uid (dfs s) = (Inl e, d')"
      and e: "e \<noteq> TestUnitError" "e \<noteq> NoRefGroupError"
  shows "predict C st dt x_units = (Inl e, s\<lparr>detectors := (detectors s)[j := d']\<rparr>)"
proof -
  have u: "predict_unit C s dt uid = (Inl e, s\<lparr>detectors := (detectors s)[j := d']\<rparr>)"
    by (rule predict_unit_raises [OF d t e])
  have "ids_target_units st1 = ids_target_units st" using ingest_frame [OF I] by simp
  then have "predict C st dt x_units = predict_loop C st1 dt (pre @ uid # post) []"
    using I ids by (simp add: predict_def)
  also have "\<dots> = predict_loop C s dt (uid # post) ds"
    using pre by (simp add: predict_loop_append)
  also have "\<dots> = (Inl e, s\<lparr>detectors := (detectors s)[j := d']\<rparr>)"
    using u by simp
  finally show ?thesis .
qed

theorem predict_propagates_uncaught_witness:
  "\<forall>m. ingest (knn_components m) (init (knn_components m) 2 [0] (3 / 5)) 5 [[1], [3]]
         = (None, (init (knn_components m) 2 [0] (3 / 5))
                    \<lparr>dfs_original := [[(5, [1])], [(5, [3])]], transformers := [(), ()],
                     dfs := [[(5, [1])], [(5, [3])]]\<rparr>) \<and>
       predict (knn_components m) (init (knn_components m) 2 [0] (3 / 5)) 5 [[1], [3]]
         = (Inl InsufficientReferenceError,
            (init (knn_components m) 2 [0] (3 / 5))
              \<lparr>dfs_original := [[(5, [1])], [(5, [3])]], transformers := [(), ()],
               dfs := [[(5, [1])], [(5, [3])]]\<rparr>)"
proof
  fix m
  let ?K = "knn_components m"
  let ?st = "init ?K 2 [0] (3 / 5)"
  let ?s = "?st\<lparr>dfs_original := [[(5, [1])], [(5, [3])]], transformers := [(), ()],
                 dfs := [[(5, [1])], [(5, [3])]]\<rparr>"
  have I: "ingest ?K ?st 5 [[1], [3]] = (None, ?s)"
    by (simp add: ev knn_components_def numeral_2_eq_2)
  have ids: "ids_target_units ?st = [] @ 0 # []" by (simp add: init_def)
  have pre: "predict_loop ?K ?s 5 [] [] = (Inr [], ?s)" by simp
  have d: "py_index (detectors ?s) 0 = Inr (0, empty_detector)"
    by (simp add: ev knn_components_def numeral_2_eq_2)
  have t: "try_block ?K empty_detector 5 0 (dfs ?s)
             = (Inl InsufficientReferenceError, empty_detector)"
    by (simp add: ev knn_components_def knn_fit_def numeral_2_eq_2)
  have "predict ?K ?st 5 [[1], [3]]
          = (Inl InsufficientReferenceError, ?s\<lparr>detectors := (detectors ?s)[0 := empty_detector]\<rparr>)"
    by (rule predict_propagates_uncaught [OF I ids pre d t]) simp_all
  moreover have "?s\<lparr>detectors := (detectors ?s)[0 := empty_detector]\<rparr> = ?s"
    by (simp add: ev knn_components_def numeral_2_eq_2)
  ultimately show "ingest ?K ?st 5 [[1], [3]] = (None, ?s) \<and>
      predict ?K ?st 5 [[1], [3]] = (Inl InsufficientReferenceError, ?s)"
    using I by simp
qed

text \<open>C6. With two units configured and one sample passed, \<^verbatim>\<open>predict\<close> returns normally and
  leaves histories for one unit only, whatever the deviation map \<open>m\<close> of the detector.\<close>

theorem predict_short_input_not_rejected:
  "fst (predict (example_components m) (init (example_components m) 2 [0] (3 / 5)) 5 [[1]])
     = Inr [neutral] \<and>
   nb_units (snd (predict (example_components m) (init (example_components m) 2 [0] (3 / 5)) 5 [[1]]))
     = 2 \<and>
   dfs_original (snd (predict (example_components m) (init (example_components m) 2 [0] (3 / 5)) 5 [[1]]))
     = [[(5, [1])]] \<and>
   dfs (snd (predict (example_components m) (init (example_components m) 2 [0] (3 / 5)) 5 [[1]]))
     = [[(5, [1])]]"
  by (simp add: ev numeral_2_eq_2)

text \<open>With more samples than units, the first comprehension raises \<^verbatim>\<open>IndexError\<close>.\<close>

lemma predict_long_input_index_error:
  "predict (example_components m) (init (example_components m) 1 [0] (3 / 5)) 5 [[1], [3]]
     = (Inl IndexError, init (example_components m) 1 [0] (3 / 5))"
  by (simp add: ev)

text \<open>C7. In a call with one sample per unit in which no transformer raises, the raw history
  of every unit gains exactly the row \<open>(dt, x_units[i])\<close> at its end and the transformed
  history exactly the row of the transformed sample, the earlier rows staying as they
  were; so histories of equal length have equal length after the step, whether the loop
  over the targets then raises or not.\<close>

theorem predict_appends_one_entry:
  assumes w: "well_formed st" and len: "int (length x_units) = nb_units st"
      and T: "\<forall>i<length x_units. \<exists>y t'. transform C (transformers st ! i) (x_units ! i) = (Inr y, t')"
      and P: "predict C st dt x_units = (r, st')"
  shows "well_formed st' \<and>
         (\<forall>i<length x_units.
            dfs_original st' ! i = dfs_original st ! i @ [(dt, x_units ! i)] \<and>
            (\<exists>y. fst (transform C (transformers st ! i) (x_units ! i)) = Inr y \<and>
                 dfs st' ! i = dfs st ! i @ [(dt, y)]) \<and>
            (length (dfs st ! i) = length (dfs_original st ! i)
               \<longrightarrow> length (dfs st' ! i) = length (dfs_original st' ! i)))"
proof -
  from ingest_ok [OF w len T, of dt] obtain st1 where
    i: "ingest C st dt x_units = (None, st1)" and w1: "well_formed st1"
    and h: "\<forall>i<length x_units.
              dfs_original st1 ! i = dfs_original st ! i @ [(dt, x_units ! i)] \<and>
              (\<exists>y. fst (transform C (transformers st ! i) (x_units ! i)) = Inr y \<and>
                   dfs st1 ! i = dfs st ! i @ [(dt, y)])" by blast
  note f = predict_after_ingest [OF i P]
  have "well_formed st'" using w1 f by (simp add: well_formed_def)
  moreover have "\<forall>i<length x_units.
            dfs_original st' ! i = dfs_original st ! i @ [(dt, x_units ! i)] \<and>
            (\<exists>y. fst (transform C (transformers st ! i) (x_units ! i)) = Inr y \<and>
                 dfs st' ! i = dfs st ! i @ [(dt, y)]) \<and>
            (length (dfs st ! i) = length (dfs_original st ! i)
               \<longrightarrow> length (dfs st' ! i) = length (dfs_original st' ! i))"
    using h f by fastforce
  ultimately show ?thesis by blast
qed

theorem predict_appends_one_entry_witness:
  "\<forall>m. well_formed (init (example_components m) 2 [0] (3 / 5)) \<and>
       int (length [[1], [3::real]]) = nb_units (init (example_components m) 2 [0] (3 / 5)) \<and>
       dfs_original (snd (predict (example_components m) (init (example_components m) 2 [0] (3 / 5))
                            5 [[1], [3]])) ! 1
         = dfs_original (init (example_components m) 2 [0] (3 / 5)) ! 1 @ [(5, [3])] \<and>
       dfs (snd (predict (example_components m) (init (example_components m) 2 [0] (3 / 5))
                   5 [[1], [3]])) ! 1
         = dfs (init (example_components m) 2 [0] (3 / 5)) ! 1 @ [(5, [3])] \<and>
       length (dfs (snd (predict (example_components m) (init (example_components m) 2 [0] (3 / 5))
                           5 [[1], [3]])) ! 1)
         = length (dfs_original (snd (predict (example_components m)
                     (init (example_components m) 2 [0] (3 / 5)) 5 [[1], [3]])) ! 1)"
proof
  fix m
  let ?C = "example_components m"
  let ?st = "init ?C 2 [0] (3 / 5)"
  let ?xs = "[[1], [3::real]]"
  obtain r st' where p: "predict ?C ?st 5 ?xs = (r, st')" by (cases "predict ?C ?st 5 ?xs")
  have w: "well_formed ?st" by (simp add: well_formed_def init_def)
  have l: "int (length ?xs) = nb_units ?st" by (simp add: init_def)
  have T: "\<forall>i<length ?xs. \<exists>y t'. transform ?C (transformers ?st ! i) (?xs ! i) = (Inr y, t')"
    by (simp add: example_components_def spec_components_def)
  have t1: "fst (transform ?C (transformers ?st ! 1) (?xs ! 1)) = Inr [3]"
    by (simp add: example_components_def spec_components_def)
  have e: "length (dfs ?st ! 1) = length (dfs_original ?st ! 1)"
    by (simp add: init_def numeral_2_eq_2)
  have "(1::nat) < length ?xs" by simp
  with predict_appends_one_entry [OF w l T p] t1 e
  have "dfs_original st' ! 1 = dfs_original ?st ! 1 @ [(5, [3])] \<and>
        dfs st' ! 1 = dfs ?st ! 1 @ [(5, [3])] \<and>
        length (dfs st' ! 1) = length (dfs_original st' ! 1)"
    by (metis Inr_inject nth_Cons_0 nth_Cons_Suc One_nat_def)
  with w l p e show "well_formed ?st \<and> int (length ?xs) = nb_units ?st \<and>
      dfs_original (snd (predict ?C ?st 5 ?xs)) ! 1 = dfs_original ?st ! 1 @ [(5, [3])] \<and>
      dfs (snd (predict ?C ?st 5 ?xs)) ! 1 = dfs ?st ! 1 @ [(5, [3])] \<and>
      length (dfs (snd (predict ?C ?st 5 ?xs)) ! 1)
        = length (dfs_original (snd (predict ?C ?st 5 ?xs)) ! 1)"
    by simp
qed



text \<open>C10. In a call with one sample per unit in which no transformer raises, for target ids
  that are not negative, a unit that is not a target keeps its detector as it was (it is
  neither fitted nor queried), and its raw and transformed histories gain one row each.
  By \<open>run_state_other_detector\<close> the detector stays the one built by the constructor for
  the whole run.\<close>

theorem predict_leaves_non_target_detector:
  assumes w: "well_formed st" and len: "int (length x_units) = nb_units st"
      and T: "\<forall>i<length x_units. \<exists>y t'. transform C (transformers st ! i) (x_units ! i) = (Inr y, t')"
      and ids: "\<forall>u\<in>set (ids_target_units st). 0 \<le> u"
      and i: "0 \<le> i" "i < nb_units st" "i \<notin> set (ids_target_units st)"
      and P: "predict C st dt x_units = (r, st')"
  shows "detectors st' ! nat i = detectors st ! nat i \<and>
         dfs_original st' ! nat i = dfs_original st ! nat i @ [(dt, x_units ! nat i)] \<and>
         (\<exists>y. fst (transform C (transformers st ! nat i) (x_units ! nat i)) = Inr y \<and>
              dfs st' ! nat i = dfs st ! nat i @ [(dt, y)])"
proof -
  have "int (nat i) \<notin> set (ids_target_units st)" using i by simp
  from predict_other_detector [OF P ids this]
  have d: "detectors st' ! nat i = detectors st ! nat i" .
  have "nat i < length x_units" using i len by linarith
  with ingest_ok [OF w len T, of dt] obtain st1 where
    g: "ingest C st dt x_units = (None, st1)"
    and h: "dfs_original st1 ! nat i = dfs_original st ! nat i @ [(dt, x_units ! nat i)]"
           "\<exists>y. fst (transform C (transformers st ! nat i) (x_units ! nat i)) = Inr y \<and>
                dfs st1 ! nat i = dfs st ! nat i @ [(dt, y)]"
    by blast
  from predict_after_ingest [OF g P] h d show ?thesis by simp
qed

theorem predict_leaves_non_target_detector_witness:
  "\<forall>m. detectors (snd (predict (example_components m) (init (example_components m) 2 [0] (3 / 5))
                         5 [[1], [3]])) ! nat 1
         = empty_detector \<and>
       detectors (snd (predict (example_components m) (init (example_components m) 2 [0] (3 / 5))
                         5 [[1], [3]])) ! 0
         = \<lparr> model = [[3]], seq_T = [5], seq_S = [2], seq_P = [1 / 2], seq_M = [m 15 [1 / 2]] \<rparr> \<and>
       dfs_original (snd (predict (example_components m) (init (example_components m) 2 [0] (3 / 5))
                            5 [[1], [3]])) ! nat 1
         = [(5, [3])] \<and>
       dfs (snd (predict (example_components m) (init (example_components m) 2 [0] (3 / 5))
                   5 [[1], [3]])) ! nat 1
         = [(5, [3])]"
proof
  fix m
  let ?C = "example_components m"
  let ?st = "init ?C 2 [0] (3 / 5)"
  let ?xs = "[[1], [3::real]]"
  obtain r st' where p: "predict ?C ?st 5 ?xs = (r, st')" by (cases "predict ?C ?st 5 ?xs")
  have w: "well_formed ?st" by (simp add: well_formed_def init_def)
  have l: "int (length ?xs) = nb_units ?st" by (simp add: init_def)
  have T: "\<forall>i<length ?xs. \<exists>y t'. transform ?C (transformers ?st ! i) (?xs ! i) = (Inr y, t')"
    by (simp add: example_components_def spec_components_def)
  have ids: "\<forall>u\<in>set (ids_target_units ?st). 0 \<le> u" by (simp add: init_def)
  have i: "(0::int) \<le> 1" "1 < nb_units ?st" "1 \<notin> set (ids_target_units ?st)"
    by (simp_all add: init_def)
  have t1: "fst (transform ?C (transformers ?st ! nat 1) (?xs ! nat 1)) = Inr [3]"
    by (simp add: example_components_def spec_components_def)
  have s: "detectors ?st ! nat 1 = empty_detector" "dfs_original ?st ! nat 1 = []"
    "dfs ?st ! nat 1 = []"
    by (simp_all add: init_def numeral_2_eq_2 example_components_def spec_components_def)
  have "detectors st' ! nat 1 = empty_detector \<and> dfs_original st' ! nat 1 = [(5, [3])] \<and>
        dfs st' ! nat 1 = [(5, [3])]"
    using predict_leaves_non_target_detector [OF w l T ids i p] t1 s by auto
  moreover have "detectors st' ! 0
      = \<lparr> model = [[3]], seq_T = [5], seq_S = [2], seq_P = [1 / 2], seq_M = [m 15 [1 / 2]] \<rparr>"
    using p by (auto simp add: ev numeral_2_eq_2 sqrt_squares)
  ultimately show "detectors (snd (predict ?C ?st 5 ?xs)) ! nat 1 = empty_detector \<and>
      detectors (snd (predict ?C ?st 5 ?xs)) ! 0
        = \<lparr> model = [[3]], seq_T = [5], seq_S = [2], seq_P = [1 / 2], seq_M = [m 15 [1 / 2]] \<rparr> \<and>
      dfs_original (snd (predict ?C ?st 5 ?xs)) ! nat 1 = [(5, [3])] \<and>
      dfs (snd (predict ?C ?st 5 ?xs)) ! nat 1 = [(5, [3])]"
    using p by simp
qed

end
